theory Spec2Isabelle
  imports Complex_Main "HOL-Library.Word"
begin

section \<open>Utilities.h: string helpers\<close>

text \<open>
  A \<open>std::string\<close> is a \<open>string\<close> (a list of 8-bit \<open>char\<close>s, embedded NULs allowed).
  \<open>size_t\<close> is a 64-bit unsigned word where the source subtracts from it (and may wrap),
  and a \<open>nat\<close> where it only counts positions inside a string.
\<close>

type_synonym size_t = "64 word"

subsection \<open>strAtMost\<close>

text \<open>
  \<^verbatim>\<open>return s.length() <= m ? s : s.substr(0, m - 3) + "...";\<close>
  \<open>s.substr(0, n)\<close> is \<open>take n s\<close>: position 0 is never out of range and the count is
  clipped to the length of \<open>s\<close>. \<open>m - 3\<close> is unsigned and wraps below 3.
\<close>

definition substr0 :: "string \<Rightarrow> size_t \<Rightarrow> string" where
  "substr0 s n = take (unat n) s"

definition strAtMost :: "string \<Rightarrow> size_t \<Rightarrow> string" where
  "strAtMost s m = (if length s \<le> unat m then s else substr0 s (m - 3) @ ''...'')"

subsection \<open>str_tolower, str_toupper\<close>

text \<open>
  \<open>std::tolower\<close> and \<open>toupper\<close> of the C library, in the "C" locale: the 26 ASCII
  letters are mapped, every other \<open>unsigned char\<close> value is returned unchanged.
\<close>

definition tolower :: "char \<Rightarrow> char" where
  "tolower c = (let n = (of_char c :: nat) in
     if 65 \<le> n \<and> n \<le> 90 then char_of (n + 32) else c)"

definition toupper :: "char \<Rightarrow> char" where
  "toupper c = (let n = (of_char c :: nat) in
     if 97 \<le> n \<and> n \<le> 122 then char_of (n - 32) else c)"

text \<open>\<open>std::transform(s.begin(), s.end(), s.begin(), f)\<close> on the by-value copy \<open>s\<close>.\<close>

definition str_tolower :: "string \<Rightarrow> string" where
  "str_tolower s = map tolower s"

definition str_toupper :: "string \<Rightarrow> string" where
  "str_toupper s = map toupper s"

subsection \<open>join\<close>

text \<open>
  \<^verbatim>\<open>
  s.clear();
  auto it = v.begin();
  ++it; ++it;
  for (auto end = v.end(); it != end; ++it) {
      s += *it;
      if (it != v.end() - 1) s += c;
  }
  \<close>
  Incrementing an iterator that already is \<open>v.end()\<close> is undefined behaviour: it happens
  at the first \<open>++it\<close> for an empty vector and at the second for a vector of one element.
  The model returns \<open>None\<close> there. \<open>join_loop\<close> is the \<open>for\<close> loop on the elements
  from \<open>it\<close> to the end; \<open>it != v.end() - 1\<close> says that elements remain after \<open>*it\<close>.
\<close>

fun join_loop :: "string list \<Rightarrow> char \<Rightarrow> string \<Rightarrow> string" where
  "join_loop [] c s = s"
| "join_loop (x # xs) c s =
     join_loop xs c (if xs \<noteq> [] then (s @ x) @ [c] else s @ x)"

definition join :: "string list \<Rightarrow> char \<Rightarrow> string \<Rightarrow> string option" where
  "join v c s = (if length v < 2 then None else Some (join_loop (drop 2 v) c []))"

text \<open>
  The conventional join, for comparison: the elements with \<open>c\<close> between every adjacent pair.
\<close>

fun interleave :: "char \<Rightarrow> string list \<Rightarrow> string" where
  "interleave c [] = []"
| "interleave c [x] = x"
| "interleave c (x # y # ys) = x @ c # interleave c (y # ys)"

subsection \<open>tokenize\<close>

text \<open>
  \<open>str.find_first_of(delimiters, pos)\<close>: the first position at or after \<open>pos\<close> whose
  character is one of \<open>delimiters\<close>; \<open>npos\<close> (here \<open>None\<close>) when there is none, also when
  \<open>pos\<close> is the length of the string or beyond.
\<close>

fun first_of :: "string \<Rightarrow> string \<Rightarrow> nat option" where
  "first_of [] delimiters = None"
| "first_of (x # xs) delimiters =
     (if x \<in> set delimiters then Some 0 else map_option Suc (first_of xs delimiters))"

definition find_first_of :: "string \<Rightarrow> string \<Rightarrow> nat \<Rightarrow> nat option" where
  "find_first_of str delimiters pos =
     map_option (\<lambda>i. pos + i) (first_of (drop pos str) delimiters)"

text \<open>
  \<^verbatim>\<open>
  while (lastPos < length + 1) {
      pos = str.find_first_of(delimiters, lastPos);
      if (pos == std::string::npos) pos = length;
      if (pos != lastPos || !trimEmpty)
          tokens.push_back(value_type(str.data() + lastPos, (size_type)pos - lastPos));
      lastPos = pos + 1;
  }
  \<close>
  Positions are \<open>nat\<close>: they stay at or below \<open>length + 1\<close>, which does not wrap for any
  string that exists. The container \<open>tokens\<close> is passed in and returned with the new
  tokens pushed at its back.
\<close>

function tokenize_loop :: "string \<Rightarrow> string \<Rightarrow> bool \<Rightarrow> nat \<Rightarrow> string list \<Rightarrow> string list" where
  "tokenize_loop str delimiters trimEmpty lastPos tokens =
     (if lastPos < length str + 1 then
        let pos = (case find_first_of str delimiters lastPos of
                     None \<Rightarrow> length str | Some p \<Rightarrow> p);
            tokens' = (if pos \<noteq> lastPos \<or> \<not> trimEmpty
                       then tokens @ [take (pos - lastPos) (drop lastPos str)]
                       else tokens)
        in tokenize_loop str delimiters trimEmpty (pos + 1) tokens'
      else tokens)"
  by pat_completeness auto
termination
proof (relation "measure (\<lambda>(str, delimiters, trimEmpty, lastPos, tokens). length str + 1 - lastPos)")
  show "wf (measure (\<lambda>(str, delimiters, trimEmpty, lastPos, tokens). length str + 1 - lastPos))"
    by simp
next
  fix str delimiters :: string and trimEmpty :: bool and lastPos :: nat and tokens :: "string list"
    and x xa
  assume "lastPos < length str + 1"
    and "x = (case find_first_of str delimiters lastPos of None \<Rightarrow> length str | Some p \<Rightarrow> p)"
  then have "lastPos \<le> x"
    by (auto simp add: find_first_of_def split: option.splits)
  with \<open>lastPos < length str + 1\<close>
  show "((str, delimiters, trimEmpty, x + 1, xa), (str, delimiters, trimEmpty, lastPos, tokens))
      \<in> measure (\<lambda>(str, delimiters, trimEmpty, lastPos, tokens). length str + 1 - lastPos)"
    by simp
qed

declare tokenize_loop.simps [simp del]

text \<open>The defaults of the source are \<open>delimiters = " "\<close> and \<open>trimEmpty = false\<close>.\<close>

definition tokenize :: "string \<Rightarrow> string list \<Rightarrow> string \<Rightarrow> bool \<Rightarrow> string list" where
  "tokenize str tokens delimiters trimEmpty = tokenize_loop str delimiters trimEmpty 0 tokens"

subsection \<open>strScpy\<close>

text \<open>
  \<^verbatim>\<open>
  strncpy(dest, src, size);
  dest[size - 1] = 0;
  return dest;
  \<close>
  A \<open>char*\<close> is modelled by the array it points into, a \<open>char list\<close>; the C string in it
  ends before the first NUL. \<open>strncpy(dest, src, n)\<close> writes exactly \<open>n\<close> characters: the
  string in \<open>src\<close>, cut at \<open>n\<close>, then NULs up to \<open>n\<close>. Writing past the end of \<open>dest\<close>,
  and reading past the end of a \<open>src\<close> that has no NUL, are undefined behaviour (\<open>None\<close>).
  \<open>size - 1\<close> is unsigned and wraps at \<open>size = 0\<close>, where the store is out of bounds.
  The result is the new content of \<open>dest\<close>.
\<close>

abbreviation NUL :: char where "NUL \<equiv> CHR 0x00"

definition c_str :: "char list \<Rightarrow> string" where
  "c_str buf = takeWhile (\<lambda>c. c \<noteq> NUL) buf"

definition strlen :: "char list \<Rightarrow> nat" where
  "strlen buf = length (c_str buf)"

definition strncpy :: "char list \<Rightarrow> char list \<Rightarrow> nat \<Rightarrow> char list option" where
  "strncpy dest src n =
     (if length dest < n then None
      else if strlen src < n \<and> strlen src = length src then None
      else Some (take n (c_str src) @ replicate (n - strlen src) NUL @ drop n dest))"

definition strScpy :: "char list \<Rightarrow> char list \<Rightarrow> size_t \<Rightarrow> char list option" where
  "strScpy dest src sz =
     (case strncpy dest src (unat sz) of
        None \<Rightarrow> None
      | Some d \<Rightarrow> if unat (sz - 1) < length d then Some (d[unat (sz - 1) := NUL]) else None)"

section \<open>NotificationPanel\<close>

text \<open>
  The header declares the class, its data members and the inline accessors; the bodies of
  \<open>AddNotificationPanelMessage\<close>, \<open>Toggle\<close>, \<open>onFlightLoop\<close> and \<open>buildInterface\<close> and the
  base class \<open>ImgWindow\<close> are not part of the sources at hand.

  The record keeps the members of the header that carry panel state
  (\<open>mDisappearTime\<close>, \<open>mScrollToBottom\<close>, \<open>mAlwaysVisible\<close>); a
  \<open>std::chrono::system_clock::time_point\<close> is its count of clock ticks, an \<open>int\<close>.
  The \<open>float\<close> colour components are modelled by \<open>real\<close>.
\<close>

text \<open>
  Modelled from the spec: the message type and the two parts of the panel state that the
  header does not show, the ordered message sequence and the visibility of the window
  (states Hidden and Visible of the spec, held by the base class \<open>ImgWindow\<close>).
\<close>

record NotificationMessage =
  msg :: string
  red :: real
  green :: real
  blue :: real

record NotificationPanel =
  messages :: "NotificationMessage list"
  mDisappearTime :: int
  mScrollToBottom :: bool
  mAlwaysVisible :: bool
  visible :: bool

text \<open>The inline accessors of the header.\<close>

definition IsAlwaysVisible :: "NotificationPanel \<Rightarrow> bool" where
  "IsAlwaysVisible p = mAlwaysVisible p"

definition SetAlwaysVisible :: "bool \<Rightarrow> NotificationPanel \<Rightarrow> NotificationPanel" where
  "SetAlwaysVisible v p = p\<lparr>mAlwaysVisible := v\<rparr>"

text \<open>
  Modelled from the spec: the clamp of a colour component. The body of
  \<open>AddNotificationPanelMessage\<close> is missing; the spec says that a component out of
  [0,255] is clamped into the range, not rejected.
\<close>

definition clamp :: "real \<Rightarrow> real" where
  "clamp x = max 0 (min 255 x)"

definition stored :: "string \<Rightarrow> real \<Rightarrow> real \<Rightarrow> real \<Rightarrow> NotificationMessage" where
  "stored message r g b = \<lparr>msg = message, red = clamp r, green = clamp g, blue = clamp b\<rparr>"

text \<open>
  Modelled from the spec: the eviction step of \<open>AddNotificationPanelMessage\<close>, whose body
  is missing: "if the sequence exceeds a fixed capacity, evicts the oldest entry". The
  capacity is a constant of the missing body and is a parameter here.
\<close>

definition evict :: "nat \<Rightarrow> 'a list \<Rightarrow> 'a list" where
  "evict capacity ms = (if capacity < length ms then tl ms else ms)"

text \<open>
  Modelled from the spec: \<open>AddNotificationPanelMessage\<close>, whose body is missing. It appends
  the message, evicts, resets the deadline to "now + fixed display duration" unless the
  panel is pinned, asks for a scroll to the bottom and makes the panel visible (transition
  Hidden to Visible of the spec's state machine). The display duration and the reading
  \<open>now\<close> of the clock are parameters.
\<close>

definition AddNotificationPanelMessage ::
  "nat \<Rightarrow> int \<Rightarrow> int \<Rightarrow> string \<Rightarrow> real \<Rightarrow> real \<Rightarrow> real \<Rightarrow> NotificationPanel \<Rightarrow> NotificationPanel" where
  "AddNotificationPanelMessage capacity duration now message r g b p =
     p\<lparr>messages := evict capacity (messages p @ [stored message r g b]),
       mDisappearTime := (if mAlwaysVisible p then mDisappearTime p else now + duration),
       mScrollToBottom := True,
       visible := True\<rparr>"

text \<open>
  The default arguments of the declaration in the header:
  \<^verbatim>\<open>float red = 255, float green = 255, float blue = 255\<close>.
\<close>

definition AddNotificationPanelMessage_default ::
  "nat \<Rightarrow> int \<Rightarrow> int \<Rightarrow> string \<Rightarrow> NotificationPanel \<Rightarrow> NotificationPanel" where
  "AddNotificationPanelMessage_default capacity duration now message p =
     AddNotificationPanelMessage capacity duration now message 255 255 255 p"

text \<open>
  Modelled from the spec: \<open>Toggle\<close>, whose body is missing. It flips \<open>mAlwaysVisible\<close>.
  "When turning it on, the panel becomes visible immediately"; "when turning it off,
  visibility reverts to the deadline rule (may cause immediate hide if the deadline has
  already passed)": a panel whose deadline is reached at the call is hidden by the call.
  Turning off does not show a hidden panel: the state machine of the spec has Hidden to
  Visible only for a new message and for turning the pin on. The reading \<open>now\<close> of the
  clock at the call is a parameter.
\<close>

definition Toggle :: "int \<Rightarrow> NotificationPanel \<Rightarrow> NotificationPanel" where
  "Toggle now p =
     (if mAlwaysVisible p
      then p\<lparr>mAlwaysVisible := False, visible := (visible p \<and> now < mDisappearTime p)\<rparr>
      else p\<lparr>mAlwaysVisible := True, visible := True\<rparr>)"

text \<open>
  Modelled from the spec: the per-frame tick \<open>onFlightLoop\<close>, whose body is missing:
  "if \<open>!alwaysVisible && nowSeconds >= disappearDeadline\<close>, the panel transitions to hidden".
\<close>

definition onFlightLoop :: "int \<Rightarrow> NotificationPanel \<Rightarrow> NotificationPanel" where
  "onFlightLoop now p =
     (if \<not> mAlwaysVisible p \<and> mDisappearTime p \<le> now then p\<lparr>visible := False\<rparr> else p)"

text \<open>
  Modelled from the spec: the state change of \<open>buildInterface\<close>, whose body is missing:
  a pending scroll to the bottom is carried out and the flag cleared.
\<close>

definition buildInterface :: "NotificationPanel \<Rightarrow> NotificationPanel" where
  "buildInterface p = (if mScrollToBottom p then p\<lparr>mScrollToBottom := False\<rparr> else p)"

text \<open>
  A sequence of calls of \<open>AddNotificationPanelMessage\<close>: each call with the clock reading
  at the call, the text and the three colour arguments.
\<close>

type_synonym add_call = "int \<times> string \<times> real \<times> real \<times> real"

fun add_call :: "nat \<Rightarrow> int \<Rightarrow> NotificationPanel \<Rightarrow> add_call \<Rightarrow> NotificationPanel" where
  "add_call capacity duration p (now, message, r, g, b) =
     AddNotificationPanelMessage capacity duration now message r g b p"

fun stored_call :: "add_call \<Rightarrow> NotificationMessage" where
  "stored_call (now, message, r, g, b) = stored message r g b"

definition add_calls :: "nat \<Rightarrow> int \<Rightarrow> add_call list \<Rightarrow> NotificationPanel \<Rightarrow> NotificationPanel" where
  "add_calls capacity duration calls p = foldl (add_call capacity duration) p calls"

text \<open>
  What the spec asks of a clamp into [0,255], stated on its own: \<open>y\<close> is \<open>x\<close> clamped.
\<close>

definition clamped_to :: "real \<Rightarrow> real \<Rightarrow> bool" where
  "clamped_to x y \<longleftrightarrow>
     0 \<le> y \<and> y \<le> 255 \<and> (x < 0 \<longrightarrow> y = 0) \<and> (255 < x \<longrightarrow> y = 255) \<and>
     (0 \<le> x \<and> x \<le> 255 \<longrightarrow> y = x)"

section \<open>Properties of the string helpers\<close>

lemma tolower_idem: "tolower (tolower c) = tolower c"
  by (simp add: tolower_def Let_def)

lemma toupper_idem: "toupper (toupper c) = toupper c"
proof (cases "97 \<le> (of_char c :: nat) \<and> (of_char c :: nat) \<le> 122")
  case True
  then have "(of_char c - 32 :: nat) mod 256 = of_char c - 32"
    by (intro mod_less) arith
  moreover from True have "\<not> 97 \<le> (of_char c - 32 :: nat)"
    by arith
  ultimately show ?thesis
    by (simp add: toupper_def Let_def)
next
  case False
  then show ?thesis
    by (auto simp add: toupper_def Let_def)
qed

text \<open>
  C10: \<open>str_tolower\<close> and \<open>str_toupper\<close> are idempotent: applying either twice gives
  the same string as applying it once.
\<close>

theorem str_case_idempotent:
  "str_tolower (str_tolower s) = str_tolower s \<and> str_toupper (str_toupper s) = str_toupper s"
  by (simp add: str_tolower_def str_toupper_def tolower_idem toupper_idem)


subsection \<open>strAtMost\<close>

lemma strAtMost_fits: "length s \<le> unat m \<Longrightarrow> strAtMost s m = s"
  by (simp add: strAtMost_def)

lemma strAtMost_from_3:
  "3 \<le> unat m \<Longrightarrow> unat m < length s \<Longrightarrow>
     strAtMost s m = take (unat m - 3) s @ ''...'' \<and> length (strAtMost s m) = unat m"
  by (simp add: strAtMost_def substr0_def unat_sub word_le_nat_alt)

text \<open>
  C6: \<open>strAtMost s m\<close> is \<open>s\<close> when it fits and otherwise has length exactly \<open>m\<close>, so its
  length never exceeds \<open>m\<close>. The code keeps this from \<open>m = 3\<close> on (\<open>strAtMost_from_3\<close>). Below
  3 the unsigned \<open>m - 3\<close> wraps, \<open>substr\<close> returns all of \<open>s\<close>, and the result is longer
  than \<open>s\<close>: for \<open>s = "abcd"\<close> and \<open>m = 2\<close> it is \<open>"abcd..."\<close>, of length 7.
\<close>

theorem strAtMost_exceeds_bound:
  "strAtMost ''abcd'' 2 = ''abcd...'' \<and> \<not> length (strAtMost ''abcd'' 2) \<le> unat (2 :: size_t)"
  by (simp add: strAtMost_def substr0_def unsigned_minus_1_eq_mask mask_eq_exp_minus_1)

subsection \<open>join\<close>

lemma join_loop_interleave: "join_loop xs c s = s @ interleave c xs"
  by (induction c xs arbitrary: s rule: interleave.induct) auto

lemma join_skips_two: "2 \<le> length v \<Longrightarrow> join v c s = Some (interleave c (drop 2 v))"
  by (simp add: join_def join_loop_interleave)

text \<open>
  C5: for every vector \<open>v\<close>, \<open>join\<close> sets its output to \<open>v[2], ..., v[n-1]\<close> separated by
  \<open>c\<close>, without \<open>v[0]\<close> and \<open>v[1]\<close>. The code does so for every \<open>v\<close> of two elements or more
  (\<open>join_skips_two\<close>). For the empty vector and for a vector of one element the two
  increments take the iterator past \<open>v.end()\<close>: the call has no defined result, where the
  claim gives the empty string.
\<close>

theorem join_short_vector_undefined:
  "join [] CHR '','' ''old'' = None \<and> join [''a''] CHR '','' ''old'' = None"
  by (simp add: join_def)

subsection \<open>tokenize\<close>

lemma first_of_None: "first_of xs d = None \<Longrightarrow> set xs \<inter> set d = {}"
  by (induction xs) (auto split: if_splits)

lemma first_of_Some:
  "first_of xs d = Some i \<Longrightarrow>
     i < length xs \<and> xs ! i \<in> set d \<and> set (take i xs) \<inter> set d = {}"
proof (induction xs arbitrary: i)
  case Nil
  then show ?case by simp
next
  case (Cons x xs)
  show ?case
  proof (cases "x \<in> set d")
    case True
    with Cons.prems show ?thesis by simp
  next
    case False
    with Cons.prems obtain j where j: "first_of xs d = Some j" "i = Suc j"
      by auto
    from Cons.IH [OF j(1)] False j(2) show ?thesis by simp
  qed
qed

lemma interleave_Cons: "ts \<noteq> [] \<Longrightarrow> interleave c (t # ts) = t @ c # interleave c ts"
  by (cases ts) simp_all

lemma count_list_notin: "c \<notin> set xs \<Longrightarrow> count_list xs c = 0"
  by (induction xs) auto

lemma tokenize_loop_single:
  "lastPos \<le> length str \<Longrightarrow>
   \<exists>ts. tokenize_loop str [c] False lastPos tokens = tokens @ ts \<and>
        length ts = count_list (drop lastPos str) c + 1 \<and>
        interleave c ts = drop lastPos str"
proof (induction str "[c]" False lastPos tokens rule: tokenize_loop.induct)
  case (1 str lastPos tokens)
  let ?rest = "drop lastPos str"
  show ?case
  proof (cases "first_of ?rest [c]")
    case None
    from first_of_None [OF None] have notin: "c \<notin> set ?rest"
      by simp
    from None have pos: "find_first_of str [c] lastPos = None"
      by (simp add: find_first_of_def)
    have "tokenize_loop str [c] False lastPos tokens = tokens @ [?rest]"
      using "1.prems" pos
      by (subst tokenize_loop.simps) (simp add: tokenize_loop.simps [of str _ _ "Suc (length str)"])
    moreover have "length [?rest] = count_list ?rest c + 1"
      using notin by (simp add: count_list_notin)
    moreover have "interleave c [?rest] = ?rest"
      by simp
    ultimately show ?thesis by blast
  next
    case (Some i)
    from first_of_Some [OF Some]
    have i: "i < length ?rest" "?rest ! i = c" "c \<notin> set (take i ?rest)"
      by auto
    let ?p = "lastPos + i"
    let ?tok = "take i ?rest"
    from Some have pos: "find_first_of str [c] lastPos = Some ?p"
      by (simp add: find_first_of_def)
    from i(1) have p: "?p + 1 \<le> length str"
      by simp
    have split: "?rest = ?tok @ c # drop (?p + 1) str"
      using i(1,2) id_take_nth_drop [of i ?rest] by (simp add: add.commute)
    from "1.hyps" [of ?p "tokens @ [?tok]"] "1.prems" pos p
    obtain ts where ts: "tokenize_loop str [c] False (?p + 1) (tokens @ [?tok]) = (tokens @ [?tok]) @ ts"
      "length ts = count_list (drop (?p + 1) str) c + 1"
      "interleave c ts = drop (?p + 1) str"
      by auto
    have "tokenize_loop str [c] False lastPos tokens = tokens @ (?tok # ts)"
      using "1.prems" pos ts(1)
      by (subst tokenize_loop.simps) simp
    moreover have "length (?tok # ts) = count_list ?rest c + 1"
      by (subst (2) split) (simp add: ts(2) count_list_notin [OF i(3)])
    moreover have "interleave c (?tok # ts) = ?rest"
    proof -
      from ts(2) have "ts \<noteq> []" by auto
      then show ?thesis
        by (subst (2) split) (simp add: interleave_Cons ts(3))
    qed
    ultimately show ?thesis by blast
  qed
qed

text \<open>
  C8: with a single delimiter character \<open>c\<close> and \<open>trimEmpty = false\<close>, \<open>tokenize\<close> pushes
  exactly (number of occurrences of \<open>c\<close> in \<open>s\<close>) + 1 tokens, and joining these tokens with
  \<open>c\<close> between every adjacent pair gives \<open>s\<close> back.
\<close>

theorem tokenize_round_trip:
  "\<exists>ts. tokenize s tokens [c] False = tokens @ ts \<and>
        length ts = count_list s c + 1 \<and> interleave c ts = s"
  using tokenize_loop_single [of 0 s c tokens] by (simp add: tokenize_def)


theorem tokenize_round_trip_witness:
  "\<exists>ts. tokenize ''a,b,,c'' [''x''] '','' False = ''x'' # ts \<and>
        length ts = length [''a'', ''b'', [], ''c''] \<and> interleave CHR '','' ts = ''a,b,,c''"
  using tokenize_round_trip [of "''a,b,,c''" "[''x'']" "CHR '',''"] by simp

subsection \<open>strScpy\<close>

lemma takeWhile_shorter: "\<not> P x \<Longrightarrow> x \<in> set xs \<Longrightarrow> length (takeWhile P xs) < length xs"
  by (induction xs) auto

lemma take_takeWhile: "k \<le> length (takeWhile P xs) \<Longrightarrow> take k (takeWhile P xs) = take k xs"
proof (induction xs arbitrary: k)
  case Nil
  then show ?case by simp
next
  case (Cons x xs)
  then show ?case by (cases k) (auto split: if_splits)
qed

lemma c_str_less: "NUL \<in> set src \<Longrightarrow> strlen src < length src"
  unfolding strlen_def c_str_def by (rule takeWhile_shorter [of "\<lambda>c. c \<noteq> NUL" NUL]) simp_all

lemma take_c_str: "k \<le> strlen src \<Longrightarrow> take k (c_str src) = take k src"
  unfolding strlen_def c_str_def by (rule take_takeWhile)

lemma takeWhile_not_in: "\<not> P x \<Longrightarrow> x \<notin> set (takeWhile P xs)"
  by (induction xs) auto

lemma c_str_no_NUL: "NUL \<notin> set (c_str src)"
  unfolding c_str_def by (rule takeWhile_not_in) simp

lemma takeWhile_stop: "\<forall>x\<in>set xs. P x \<Longrightarrow> \<not> P y \<Longrightarrow> takeWhile P (xs @ y # ys) = xs"
  by (induction xs) auto

lemma c_str_append_NUL: "NUL \<notin> set xs \<Longrightarrow> c_str (xs @ NUL # ys) = xs"
  unfolding c_str_def by (rule takeWhile_stop) auto

text \<open>
  C9: for a destination buffer of \<open>size \<ge> 1\<close> characters (or more) and a NUL-terminated
  source, \<open>strScpy\<close> returns with \<open>dest[size - 1] = 0\<close>, so \<open>dest\<close> is terminated at or
  before index \<open>size - 1\<close>, and the string in \<open>dest\<close> is the first
  \<open>min (strlen src) (size - 1)\<close> characters of \<open>src\<close>.
\<close>

theorem strScpy_terminated:
  assumes size: "1 \<le> unat sz" "unat sz \<le> length dest"
    and src: "NUL \<in> set src"
  shows "\<exists>d. strScpy dest src sz = Some d \<and> length d = length dest \<and>
           d ! (unat sz - 1) = NUL \<and>
           c_str d = take (min (strlen src) (unat sz - 1)) src"
proof -
  let ?n = "unat sz"
  let ?cp = "take ?n (c_str src) @ replicate (?n - strlen src) NUL @ drop ?n dest"
  let ?d = "?cp[?n - 1 := NUL]"
  from size(1) have n1: "unat (sz - 1) = ?n - 1"
    by (simp add: unat_sub word_le_nat_alt)
  have cpy: "strncpy dest src ?n = Some ?cp"
    using size(2) c_str_less [OF src] by (simp add: strncpy_def)
  have len0: "length ?cp = length dest"
    using size(2) by (simp add: strlen_def)
  have res: "strScpy dest src sz = Some ?d"
    using size len0 by (simp add: strScpy_def cpy n1 del: length_append)
  have nth: "?d ! (?n - 1) = NUL"
    using size len0 by (simp del: length_append)
  have cstr: "c_str ?d = take (min (strlen src) (?n - 1)) src"
  proof (cases "strlen src < ?n")
    case True
    then have idx: "\<not> ?n - 1 < length (c_str src)" "?n - 1 - length (c_str src) < ?n - strlen src"
      by (simp_all add: strlen_def)
    from True have "take ?n (c_str src) = c_str src"
      by (simp add: strlen_def)
    then have "?cp ! (?n - 1) = (replicate (?n - strlen src) NUL @ drop ?n dest) ! (?n - 1 - length (c_str src))"
      using idx(1) by (simp only: nth_append if_False)
    also have "\<dots> = NUL"
      using idx(2) by (simp only: nth_append length_replicate if_True nth_replicate)
    finally have "?cp ! (?n - 1) = NUL" .
    then have "?d = ?cp"
      by (metis list_update_id)
    moreover from True obtain k where k: "?n - strlen src = Suc k"
      by (metis Suc_diff_Suc)
    have "c_str ?cp = c_str src"
      using \<open>take ?n (c_str src) = c_str src\<close> c_str_append_NUL [OF c_str_no_NUL, of src]
      by (simp add: k)
    moreover have "take (min (strlen src) (?n - 1)) src = c_str src"
    proof -
      from True have "min (strlen src) (?n - 1) = strlen src"
        by arith
      then show ?thesis
        using take_c_str [of "strlen src" src] by (simp add: strlen_def)
    qed
    ultimately show ?thesis by (simp only:)
  next
    case False
    then have le: "?n \<le> strlen src" by simp
    then have cp: "?cp = take ?n (c_str src) @ drop ?n dest"
      by simp
    have "?d = take (?n - 1) (c_str src) @ NUL # drop ?n dest"
    proof -
      from le size(1) have "take ?n (c_str src) = take (?n - 1) (c_str src) @ [c_str src ! (?n - 1)]"
        by (metis Suc_diff_1 less_eq_Suc_le strlen_def take_Suc_conv_app_nth One_nat_def Suc_le_eq)
      moreover from le have "length (take (?n - 1) (c_str src)) = ?n - 1"
        by (simp add: strlen_def)
      ultimately show ?thesis
        unfolding cp by (simp add: list_update_append)
    qed
    moreover have "NUL \<notin> set (take (?n - 1) (c_str src))"
      using c_str_no_NUL by (auto dest: in_set_takeD)
    ultimately have "c_str ?d = take (?n - 1) (c_str src)"
      by (simp add: c_str_append_NUL)
    also from le have "\<dots> = take (?n - 1) src"
      by (intro take_c_str) simp
    finally have "c_str ?d = take (?n - 1) src" .
    moreover from le size(1) have "min (strlen src) (?n - 1) = ?n - 1"
      by arith
    ultimately show ?thesis
      by (simp only:)
  qed
  have lend: "length ?d = length dest"
    using len0 by (simp only: length_list_update)
  from res lend nth cstr show ?thesis
    by blast
qed


theorem strScpy_terminated_witness:
  "\<exists>d. strScpy ''xxxxxx'' (''abcdefgh'' @ [NUL]) 4 = Some d \<and> length d = length ''xxxxxx'' \<and>
       d ! 3 = NUL \<and> c_str d = ''abc''"
  using strScpy_terminated [of 4 "''xxxxxx''" "''abcdefgh'' @ [NUL]"]
  by (simp add: strlen_def c_str_def)

section \<open>Properties of the notification panel\<close>

lemma evict_bounded: "length ms \<le> Suc capacity \<Longrightarrow> evict capacity ms = drop (length ms - capacity) ms"
  by (cases ms) (auto simp add: evict_def Suc_diff_le drop_Cons' )

lemma messages_add_call:
  "messages (add_call capacity duration p call) = evict capacity (messages p @ [stored_call call])"
  by (cases call) (simp add: AddNotificationPanelMessage_def)

lemma messages_add_calls:
  "length (messages p) \<le> capacity \<Longrightarrow>
   messages (add_calls capacity duration calls p) =
     drop (length (messages p) + length calls - capacity) (messages p @ map stored_call calls)"
proof (induction calls arbitrary: p)
  case Nil
  then show ?case by (simp add: add_calls_def)
next
  case (Cons call calls)
  let ?q = "add_call capacity duration p call"
  let ?ms = "messages p @ [stored_call call]"
  have q: "messages ?q = drop (length ?ms - capacity) ?ms"
    using Cons.prems by (simp only: messages_add_call) (rule evict_bounded, simp)
  then have len: "length (messages ?q) \<le> capacity"
    using Cons.prems by simp
  have "messages (add_calls capacity duration (call # calls) p) = messages (add_calls capacity duration calls ?q)"
    by (simp add: add_calls_def)
  also have "\<dots> = drop (length (messages ?q) + length calls - capacity) (messages ?q @ map stored_call calls)"
    by (rule Cons.IH [OF len])
  also have "\<dots> = drop (length (messages p) + length (call # calls) - capacity) (messages p @ map stored_call (call # calls))"
  proof (cases "length ?ms \<le> capacity")
    case True
    then show ?thesis by (simp add: q)
  next
    case False
    with Cons.prems have eq: "length (messages p) = capacity" by simp
    then have "messages ?q = drop 1 ?ms" by (simp add: q)
    then show ?thesis
      using eq by (cases "messages p") (simp_all add: drop_Cons')
  qed
  finally show ?case .
qed

lemma clamp_clamped: "clamped_to x (clamp x)"
  by (auto simp add: clamped_to_def clamp_def)

lemma last_evict: "0 < capacity \<Longrightarrow> evict capacity (ms @ [m]) \<noteq> [] \<and> last (evict capacity (ms @ [m])) = m"
  by (cases ms) (auto simp add: evict_def)

text \<open>
  C1: after a sequence of \<open>AddNotificationPanelMessage\<close> calls longer than the capacity,
  the panel retains exactly the last \<open>capacity\<close> messages added, in arrival order. The
  panel starts within its capacity, as every panel reached from the empty one is.
\<close>

theorem fifo_eviction:
  assumes "length (messages p) \<le> capacity" and "capacity < length calls"
  shows "messages (add_calls capacity duration calls p) =
           drop (length calls - capacity) (map stored_call calls)"
  using assms messages_add_calls [of p capacity duration calls] by simp

text \<open>The scenario of the spec: capacity 3, messages A, B, C, D added to the empty panel.\<close>

theorem fifo_eviction_witness:
  "messages (add_calls 3 5
      [(0, ''A'', 255, 255, 255), (1, ''B'', 255, 255, 255), (2, ''C'', 255, 255, 255),
       (3, ''D'', 255, 255, 255)]
      \<lparr>messages = [], mDisappearTime = 0, mScrollToBottom = False, mAlwaysVisible = False,
       visible = False\<rparr>) =
   [\<lparr>msg = ''B'', red = 255, green = 255, blue = 255\<rparr>,
    \<lparr>msg = ''C'', red = 255, green = 255, blue = 255\<rparr>,
    \<lparr>msg = ''D'', red = 255, green = 255, blue = 255\<rparr>]"
  using fifo_eviction [of "\<lparr>messages = [], mDisappearTime = 0, mScrollToBottom = False,
      mAlwaysVisible = False, visible = False\<rparr>" 3
      "[(0, ''A'', 255, 255, 255), (1, ''B'', 255, 255, 255), (2, ''C'', 255, 255, 255),
        (3, ''D'', 255, 255, 255)]" 5]
  by (simp add: stored_def clamp_def)

subsection \<open>Visibility\<close>

text \<open>
  After a tick the panel is visible exactly when it was visible before and is either pinned
  or still before its deadline; a tick never shows a hidden panel.
\<close>

lemma onFlightLoop_visible:
  "visible (onFlightLoop now p) = (visible p \<and> (mAlwaysVisible p \<or> now < mDisappearTime p))"
  by (auto simp add: onFlightLoop_def)

text \<open>
  Turning the pin off at or after the deadline hides a visible panel in the call itself;
  adding a message, \<open>SetAlwaysVisible\<close> and \<open>buildInterface\<close> keep a visible panel visible.
\<close>

lemma Toggle_off_hides:
  "mAlwaysVisible p \<Longrightarrow> mDisappearTime p \<le> now \<Longrightarrow> \<not> visible (Toggle now p)"
  by (simp add: Toggle_def)

lemma others_keep_visible:
  "visible p \<Longrightarrow>
     visible (AddNotificationPanelMessage capacity duration t message r g b p) \<and>
     visible (SetAlwaysVisible v p) \<and> visible (buildInterface p)"
  by (simp add: AddNotificationPanelMessage_def SetAlwaysVisible_def buildInterface_def)

text \<open>
  Two calls of \<open>Toggle\<close> in succession, the second at time \<open>now\<close>: the flag is back at its
  value. A panel that was not pinned is then visible exactly when \<open>now\<close> is before the
  deadline; a panel that was pinned is pinned again and visible whatever the deadline.
\<close>

lemma Toggle_twice_flag: "mAlwaysVisible (Toggle now (Toggle t p)) = mAlwaysVisible p"
  by (simp add: Toggle_def)

lemma Toggle_twice_unpinned:
  "\<not> mAlwaysVisible p \<Longrightarrow> visible (Toggle now (Toggle t p)) = (now < mDisappearTime p)"
  by (simp add: Toggle_def)

lemma Toggle_twice_pinned:
  "mAlwaysVisible p \<Longrightarrow> visible (Toggle now (Toggle t p))"
  by (simp add: Toggle_def)

text \<open>
  C4: \<open>AddNotificationPanelMessage\<close> does not fail on a colour component outside [0,255]:
  the message is stored (it is the newest of a panel of capacity 1 or more) and each stored
  component is the argument clamped into [0,255]. The call with colour (300, -10, 255)
  stores (255, 0, 255).
\<close>

theorem color_clamped:
  assumes "0 < capacity"
  shows "messages (AddNotificationPanelMessage capacity duration now message r g b p) \<noteq> [] \<and>
    (\<exists>r' g' b'.
       last (messages (AddNotificationPanelMessage capacity duration now message r g b p)) =
         \<lparr>msg = message, red = r', green = g', blue = b'\<rparr> \<and>
       clamped_to r r' \<and> clamped_to g g' \<and> clamped_to b b')"
  using last_evict [OF assms, of "messages p" "stored message r g b"]
  by (simp add: AddNotificationPanelMessage_def stored_def clamp_clamped)

theorem color_clamped_witness:
  "(0::nat) < 3 \<and>
   last (messages (AddNotificationPanelMessage 3 5 0 ''x'' 300 (- 10) 255
      \<lparr>messages = [], mDisappearTime = 0, mScrollToBottom = False, mAlwaysVisible = False,
       visible = False\<rparr>)) = \<lparr>msg = ''x'', red = 255, green = 0, blue = 255\<rparr>"
proof -
  have h: "(0::nat) < 3" by simp
  from color_clamped [OF h, of 5 0 "''x''" 300 "- 10" 255
      "\<lparr>messages = [], mDisappearTime = 0, mScrollToBottom = False, mAlwaysVisible = False,
        visible = False\<rparr>"]
  show ?thesis
    by (auto simp add: clamped_to_def)
qed

text \<open>
  C7: called without a colour, \<open>AddNotificationPanelMessage\<close> stores the message with the
  default colour (255, 255, 255).
\<close>

theorem default_color:
  assumes "0 < capacity"
  shows "messages (AddNotificationPanelMessage_default capacity duration now message p) \<noteq> [] \<and>
    last (messages (AddNotificationPanelMessage_default capacity duration now message p)) =
      \<lparr>msg = message, red = 255, green = 255, blue = 255\<rparr>"
  using last_evict [OF assms, of "messages p" "stored message 255 255 255"]
  by (simp add: AddNotificationPanelMessage_default_def AddNotificationPanelMessage_def
      stored_def clamp_def)

theorem default_color_witness:
  "(0::nat) < 3 \<and>
   last (messages (AddNotificationPanelMessage_default 3 5 0 ''hello''
      \<lparr>messages = [\<lparr>msg = ''old'', red = 1, green = 2, blue = 3\<rparr>], mDisappearTime = 0,
       mScrollToBottom = False, mAlwaysVisible = False, visible = False\<rparr>)) =
     \<lparr>msg = ''hello'', red = 255, green = 255, blue = 255\<rparr>"
proof -
  have h: "(0::nat) < 3" by simp
  from default_color [OF h, of 5 0 "''hello''"
      "\<lparr>messages = [\<lparr>msg = ''old'', red = 1, green = 2, blue = 3\<rparr>], mDisappearTime = 0,
        mScrollToBottom = False, mAlwaysVisible = False, visible = False\<rparr>"]
  show ?thesis by simp
qed

end
